theory Spec2Isabelle
  imports Main "HOL-Library.Sublist"
begin

section \<open>ParamEditor: the data model\<close>

text \<open>
  The interfaces of \<^verbatim>\<open>components/ParamEditor\<close>. A TypeScript \<^verbatim>\<open>number\<close> used as an
  identifier is an \<^typ>\<open>int\<close>; a TypeScript \<^verbatim>\<open>string\<close> is a \<^typ>\<open>string\<close>. The
  operations below never look inside a string, they only store it, return it and
  return the empty one. Fields named \<^verbatim>\<open>id\<close>, \<^verbatim>\<open>name\<close> and \<^verbatim>\<open>type\<close> carry a suffix,
  since \<open>id\<close> is a constant of HOL.
\<close>

datatype ParamType = String_type

record Param =
  id_p :: int
  name_p :: string
  type_p :: ParamType

record ParamValue =
  paramId :: int
  "value" :: string

record Color =
  id_c :: int
  name_c :: string

record Model =
  paramValues :: "ParamValue list"
  colors :: "Color list"

record Props =
  params :: "Param list"
  model :: Model

record State =
  paramValues :: "ParamValue list"

text \<open>A mounted component: its props and its state.\<close>

record ParamEditor =
  props :: Props
  state :: State


section \<open>ParamEditor: the operations, on values\<close>

text \<open>
  \<^verbatim>\<open>Array.prototype.findIndex\<close>: the index of the first element that satisfies the
  predicate, and \<open>-1\<close> when there is none.
\<close>

fun findIndex_from :: "nat \<Rightarrow> ('a \<Rightarrow> bool) \<Rightarrow> 'a list \<Rightarrow> int" where
  "findIndex_from k p [] = - 1"
| "findIndex_from k p (x # xs) = (if p x then int k else findIndex_from (Suc k) p xs)"

definition findIndex :: "('a \<Rightarrow> bool) \<Rightarrow> 'a list \<Rightarrow> int" where
  "findIndex p xs = findIndex_from 0 p xs"

text \<open>
  The constructor: \<^verbatim>\<open>this.state = { paramValues: [...props.model.paramValues] }\<close>.
  On values the spread is the same sequence; the copy itself is modelled in the
  section on references below.
\<close>

definition constructor :: "Props \<Rightarrow> ParamEditor" where
  "constructor p = \<lparr>props = p, state = \<lparr>paramValues = Model.paramValues (model p)\<rparr>\<rparr>"

text \<open>
  \<^verbatim>\<open>this.setState(f)\<close> with an updater function: the next state is \<open>f\<close> of the
  previous one. Edit events are processed one at a time.
\<close>

definition setState :: "(State \<Rightarrow> State) \<Rightarrow> ParamEditor \<Rightarrow> ParamEditor" where
  "setState f ed = ed\<lparr>state := f (state ed)\<rparr>"

text \<open>
  The arrow function that \<^verbatim>\<open>handleParamChange\<close> passes to \<^verbatim>\<open>setState\<close>. The index
  written is the one \<^verbatim>\<open>findIndex\<close> returned, which is inside the array
  (lemma \<open>findIndex_range\<close>), so the assignment never extends it.
\<close>

definition handleParamChange_updater :: "int \<Rightarrow> string \<Rightarrow> State \<Rightarrow> State" where
  "handleParamChange_updater pid v prevState =
     (let indexExistingValue =
            findIndex (\<lambda>parameterValue. paramId parameterValue = pid)
              (State.paramValues prevState);
          updatedValues = State.paramValues prevState
      in if indexExistingValue \<noteq> - 1
         then \<lparr>paramValues =
                 updatedValues[nat indexExistingValue := \<lparr>paramId = pid, value = v\<rparr>]\<rparr>
         else \<lparr>paramValues = updatedValues @ [\<lparr>paramId = pid, value = v\<rparr>]\<rparr>)"

definition handleParamChange :: "int \<Rightarrow> string \<Rightarrow> ParamEditor \<Rightarrow> ParamEditor" where
  "handleParamChange pid v ed = setState (handleParamChange_updater pid v) ed"

text \<open>\<^verbatim>\<open>getModel\<close>: \<^verbatim>\<open>{ ...this.props.model, paramValues: this.state.paramValues }\<close>.\<close>

definition getModel :: "ParamEditor \<Rightarrow> Model" where
  "getModel ed = (model (props ed))\<lparr>Model.paramValues := State.paramValues (state ed)\<rparr>"

text \<open>
  \<^verbatim>\<open>getParamValue\<close>: \<^verbatim>\<open>Array.prototype.find\<close> is \<^const>\<open>find\<close>, with \<open>None\<close> for
  \<^verbatim>\<open>undefined\<close>.
\<close>

definition getParamValue :: "ParamEditor \<Rightarrow> int \<Rightarrow> string" where
  "getParamValue ed pid =
     (case find (\<lambda>v. paramId v = pid) (State.paramValues (state ed)) of
        Some parameterValue \<Rightarrow> value parameterValue
      | None \<Rightarrow> [])"

text \<open>A sequence of edit events, each seeing the result of the one before.\<close>

definition handleParamChanges :: "(int \<times> string) list \<Rightarrow> ParamEditor \<Rightarrow> ParamEditor" where
  "handleParamChanges ups ed = foldl (\<lambda>e (pid, v). handleParamChange pid v e) ed ups"

text \<open>The sequence of values an update leaves, given the one it found.\<close>

abbreviation updated :: "int \<Rightarrow> string \<Rightarrow> ParamValue list \<Rightarrow> ParamValue list" where
  "updated pid v xs \<equiv> State.paramValues (handleParamChange_updater pid v \<lparr>paramValues = xs\<rparr>)"

text \<open>The identifiers of a sequence of values, in its order.\<close>

abbreviation ids :: "ParamValue list \<Rightarrow> int list" where
  "ids xs \<equiv> map paramId xs"


section \<open>ParamEditor: the operations, on references\<close>

text \<open>
  In JavaScript an array and an object are reached through a reference, and two
  references may name the same array. Where a property depends on that, the heap is
  explicit: it holds, by address, the \<^verbatim>\<open>ParamValue\<close> objects, the \<^verbatim>\<open>ParamValue[]\<close>
  arrays (each the sequence of the addresses of its elements), the \<^verbatim>\<open>Color[]\<close> arrays
  and the \<^verbatim>\<open>Model\<close> objects (whose two properties hold the addresses of their arrays).
  An address is an index into its store, and an allocation appends to the store, so
  that a new address is one no reference held before.
\<close>

type_synonym ref = nat

record ModelObj =
  paramValues_ref :: ref
  colors_ref :: ref

record Heap =
  paramValueObjs :: "ParamValue list"
  paramValueArrays :: "ref list list"
  colorArrays :: "Color list list"
  modelObjs :: "ModelObj list"

text \<open>The component, by reference: \<^verbatim>\<open>this.props\<close> and \<^verbatim>\<open>this.state.paramValues\<close>.\<close>

record ParamEditor_ref =
  props_params :: "Param list"
  props_model :: ref
  state_paramValues :: ref

text \<open>An array literal or a spread \<^verbatim>\<open>[...a]\<close>: a new array with the given elements.\<close>

definition new_array :: "ref list \<Rightarrow> Heap \<Rightarrow> ref \<times> Heap" where
  "new_array rs h =
     (length (paramValueArrays h), h\<lparr>paramValueArrays := paramValueArrays h @ [rs]\<rparr>)"

text \<open>An object literal \<^verbatim>\<open>{ paramId, value }\<close>: a new object.\<close>

definition new_paramValue :: "ParamValue \<Rightarrow> Heap \<Rightarrow> ref \<times> Heap" where
  "new_paramValue pv h =
     (length (paramValueObjs h), h\<lparr>paramValueObjs := paramValueObjs h @ [pv]\<rparr>)"

text \<open>An object literal of a \<^verbatim>\<open>Model\<close>: a new object.\<close>

definition new_model :: "ModelObj \<Rightarrow> Heap \<Rightarrow> ref \<times> Heap" where
  "new_model m h = (length (modelObjs h), h\<lparr>modelObjs := modelObjs h @ [m]\<rparr>)"

text \<open>
  \<^verbatim>\<open>a[i] = r\<close>, in place, for an index inside the array. (Outside it JavaScript would
  extend the array; the component never writes there, see \<open>findIndex_range\<close>, and this
  model then leaves the array as it is.)
\<close>

definition array_assign :: "ref \<Rightarrow> nat \<Rightarrow> ref \<Rightarrow> Heap \<Rightarrow> Heap" where
  "array_assign a i r h =
     h\<lparr>paramValueArrays := (paramValueArrays h)[a := (paramValueArrays h ! a)[i := r]]\<rparr>"

text \<open>\<^verbatim>\<open>a.push(r)\<close>, in place.\<close>

definition array_push :: "ref \<Rightarrow> ref \<Rightarrow> Heap \<Rightarrow> Heap" where
  "array_push a r h =
     h\<lparr>paramValueArrays := (paramValueArrays h)[a := paramValueArrays h ! a @ [r]]\<rparr>"

text \<open>The constructor, with its copy of the array of the model it is given.\<close>

definition constructor_ref :: "Param list \<Rightarrow> ref \<Rightarrow> Heap \<Rightarrow> ParamEditor_ref \<times> Heap" where
  "constructor_ref ps m h =
     (let (a, h') = new_array (paramValueArrays h ! paramValues_ref (modelObjs h ! m)) h
      in (\<lparr>props_params = ps, props_model = m, state_paramValues = a\<rparr>, h'))"

text \<open>
  \<^verbatim>\<open>handleParamChange\<close>: the search reads the previous array, the copy is a new array,
  the new entry is a new object, and the write or the push is done in place on the
  copy, which becomes the state.
\<close>

definition handleParamChange_ref ::
  "int \<Rightarrow> string \<Rightarrow> ParamEditor_ref \<times> Heap \<Rightarrow> ParamEditor_ref \<times> Heap" where
  "handleParamChange_ref pid v = (\<lambda>(ed, h).
     (let prev = paramValueArrays h ! state_paramValues ed;
          indexExistingValue =
            findIndex (\<lambda>parameterValue. paramId (paramValueObjs h ! parameterValue) = pid) prev;
          (updatedValues, h1) = new_array prev h;
          (entry, h2) = new_paramValue \<lparr>paramId = pid, value = v\<rparr> h1;
          h3 = (if indexExistingValue \<noteq> - 1
                then array_assign updatedValues (nat indexExistingValue) entry h2
                else array_push updatedValues entry h2)
      in (ed\<lparr>state_paramValues := updatedValues\<rparr>, h3)))"

definition handleParamChanges_ref ::
  "(int \<times> string) list \<Rightarrow> ParamEditor_ref \<times> Heap \<Rightarrow> ParamEditor_ref \<times> Heap" where
  "handleParamChanges_ref ups c = foldl (\<lambda>c (pid, v). handleParamChange_ref pid v c) c ups"

text \<open>
  \<^verbatim>\<open>getModel\<close>: a new object with the properties of \<^verbatim>\<open>this.props.model\<close>, its
  \<^verbatim>\<open>paramValues\<close> overwritten by the reference the state holds.
\<close>

definition getModel_ref :: "ParamEditor_ref \<Rightarrow> Heap \<Rightarrow> ref \<times> Heap" where
  "getModel_ref ed h =
     new_model ((modelObjs h ! props_model ed)\<lparr>paramValues_ref := state_paramValues ed\<rparr>) h"

definition getParamValue_ref :: "ParamEditor_ref \<Rightarrow> Heap \<Rightarrow> int \<Rightarrow> string" where
  "getParamValue_ref ed h pid =
     (case find (\<lambda>v. paramId (paramValueObjs h ! v) = pid)
             (paramValueArrays h ! state_paramValues ed) of
        Some parameterValue \<Rightarrow> value (paramValueObjs h ! parameterValue)
      | None \<Rightarrow> [])"

text \<open>What a reference stands for: the contents of an array, of a model, of the component.\<close>

definition paramValues_of :: "Heap \<Rightarrow> ref \<Rightarrow> ParamValue list" where
  "paramValues_of h a = map (\<lambda>r. paramValueObjs h ! r) (paramValueArrays h ! a)"

definition model_of :: "Heap \<Rightarrow> ref \<Rightarrow> Model" where
  "model_of h m =
     \<lparr>Model.paramValues = paramValues_of h (paramValues_ref (modelObjs h ! m)),
      colors = colorArrays h ! colors_ref (modelObjs h ! m)\<rparr>"

definition editor_of :: "Heap \<Rightarrow> ParamEditor_ref \<Rightarrow> ParamEditor" where
  "editor_of h ed =
     \<lparr>props = \<lparr>params = props_params ed, model = model_of h (props_model ed)\<rparr>,
      state = \<lparr>paramValues = paramValues_of h (state_paramValues ed)\<rparr>\<rparr>"

text \<open>
  No reference dangles: every element of an array is the address of an object, every
  model names two arrays, and the component names a model and an array.
\<close>

definition heap_ok :: "Heap \<Rightarrow> bool" where
  "heap_ok h =
     ((\<forall>a \<in> set (paramValueArrays h). \<forall>r \<in> set a. r < length (paramValueObjs h)) \<and>
      (\<forall>m \<in> set (modelObjs h).
         paramValues_ref m < length (paramValueArrays h) \<and>
         colors_ref m < length (colorArrays h)))"

definition editor_ok :: "ParamEditor_ref \<Rightarrow> Heap \<Rightarrow> bool" where
  "editor_ok ed h =
     (props_model ed < length (modelObjs h) \<and>
      state_paramValues ed < length (paramValueArrays h))"

text \<open>
  \<open>h'\<close> keeps all of \<open>h\<close>: whatever an address of \<open>h\<close> held it still holds, and
  \<open>h'\<close> has at most new objects and new arrays beside.
\<close>

definition keeps :: "Heap \<Rightarrow> Heap \<Rightarrow> bool" where
  "keeps h h' =
     (prefix (paramValueObjs h) (paramValueObjs h') \<and>
      prefix (paramValueArrays h) (paramValueArrays h') \<and>
      prefix (modelObjs h) (modelObjs h') \<and>
      colorArrays h' = colorArrays h)"


section \<open>The order of first appearance\<close>

text \<open>
  The elements of a list, each once, in the order in which they first appear:
  \<^const>\<open>remdups\<close> keeps the last occurrence of each, so the list is reversed around it.
\<close>

definition first_seen :: "'a list \<Rightarrow> 'a list" where
  "first_seen xs = rev (remdups (rev xs))"

text \<open>The entries of a sequence of values as pairs, for a lookup by identifier.\<close>

definition entries :: "ParamValue list \<Rightarrow> (int \<times> string) list" where
  "entries xs = map (\<lambda>pv. (paramId pv, value pv)) xs"


section \<open>The test data of the harness\<close>

text \<open>
  The parameters and the model that \<^verbatim>\<open>App\<close> hands to the editor. The Russian words
  are written in Latin letters; the third parameter has no value in the model.
\<close>

definition testModel :: Model where
  "testModel = \<lparr>Model.paramValues = [\<lparr>paramId = 1, value = ''povsednevnoe''\<rparr>,
       \<lparr>paramId = 2, value = ''maksi''\<rparr>], colors = []\<rparr>"

definition testParameters :: "Param list" where
  "testParameters = [\<lparr>id_p = 1, name_p = ''Naznachenie'', type_p = String_type\<rparr>,
     \<lparr>id_p = 2, name_p = ''Dlina'', type_p = String_type\<rparr>,
     \<lparr>id_p = 3, name_p = ''Material'', type_p = String_type\<rparr>]"

definition testProps :: Props where
  "testProps = \<lparr>params = testParameters, model = testModel\<rparr>"


text \<open>
  The same model by reference: its two entries and its array at address 0, its empty
  array of colours at address 0, the model object at address 0.
\<close>

definition testHeap :: Heap where
  "testHeap =
     \<lparr>paramValueObjs = [\<lparr>paramId = 1, value = ''povsednevnoe''\<rparr>,
                        \<lparr>paramId = 2, value = ''maksi''\<rparr>],
      paramValueArrays = [[0, 1]],
      colorArrays = [[]],
      modelObjs = [\<lparr>paramValues_ref = 0, colors_ref = 0\<rparr>]\<rparr>"

text \<open>
  A model with colours, which the harness does not have: two arrays of colours in the
  heap, the model naming the second.
\<close>

definition paletteHeap :: Heap where
  "paletteHeap =
     \<lparr>paramValueObjs = [\<lparr>paramId = 1, value = ''povsednevnoe''\<rparr>,
                        \<lparr>paramId = 2, value = ''maksi''\<rparr>],
      paramValueArrays = [[0, 1]],
      colorArrays = [[\<lparr>id_c = 7, name_c = ''belyj''\<rparr>],
                     [\<lparr>id_c = 1, name_c = ''krasnyj''\<rparr>, \<lparr>id_c = 2, name_c = ''sinij''\<rparr>]],
      modelObjs = [\<lparr>paramValues_ref = 0, colors_ref = 1\<rparr>]\<rparr>"

text \<open>The editor that \<^verbatim>\<open>App\<close> mounts on the test model.\<close>

definition mounted :: "ParamEditor_ref \<times> Heap" where
  "mounted = constructor_ref testParameters 0 testHeap"

text \<open>\<^verbatim>\<open>startInitialTests\<close>: the model the harness asks of the mounted editor.\<close>

definition initialResult :: "ref \<times> Heap" where
  "initialResult = getModel_ref (fst mounted) (snd mounted)"



section \<open>The search and the update, step by step\<close>

lemma findIndex_from_takeWhile:
  "findIndex_from k p xs =
     (if \<exists>x \<in> set xs. p x then int (k + length (takeWhile (\<lambda>x. \<not> p x) xs)) else - 1)"
  by (induction xs arbitrary: k) simp_all

lemma findIndex_none: "(findIndex p xs = - 1) = (\<forall>x \<in> set xs. \<not> p x)"
  by (simp add: findIndex_def findIndex_from_takeWhile)

lemma findIndex_first:
  "\<exists>x \<in> set xs. p x \<Longrightarrow> findIndex p xs = int (length (takeWhile (\<lambda>x. \<not> p x) xs))"
  by (simp add: findIndex_def findIndex_from_takeWhile)

lemma takeWhile_stops: "\<exists>x \<in> set xs. p x \<Longrightarrow> length (takeWhile (\<lambda>x. \<not> p x) xs) < length xs"
  by (induction xs) auto

lemma findIndex_range:
  "findIndex p xs = - 1 \<or> (0 \<le> findIndex p xs \<and> nat (findIndex p xs) < length xs)"
proof (cases "\<exists>x \<in> set xs. p x")
  case True
  then show ?thesis using takeWhile_stops [of xs p] by (simp add: findIndex_first)
next
  case False
  then show ?thesis by (simp add: findIndex_none)
qed

lemma findIndex_Cons:
  "findIndex p (x # xs) =
     (if p x then 0 else if findIndex p xs = - 1 then - 1 else findIndex p xs + 1)"
  by (simp add: findIndex_def findIndex_from_takeWhile)

lemma updated_Nil: "updated pid v [] = [\<lparr>paramId = pid, value = v\<rparr>]"
  by (simp add: handleParamChange_updater_def findIndex_def)

lemma updated_Cons:
  "updated pid v (x # xs) =
     (if paramId x = pid then \<lparr>paramId = pid, value = v\<rparr> # xs else x # updated pid v xs)"
proof (cases "paramId x = pid")
  case True
  then show ?thesis by (simp add: handleParamChange_updater_def findIndex_Cons)
next
  case False
  let ?i = "findIndex (\<lambda>parameterValue. paramId parameterValue = pid) xs"
  show ?thesis
  proof (cases "?i = - 1")
    case True
    with False show ?thesis by (simp add: handleParamChange_updater_def findIndex_Cons)
  next
    case found: False
    with findIndex_range [of "\<lambda>parameterValue. paramId parameterValue = pid" xs]
    have pos: "0 \<le> ?i" by blast
    then have suc: "nat (?i + 1) = Suc (nat ?i)" by simp
    from pos have ne: "(?i + 1 = - 1) = False" by arith
    have "findIndex (\<lambda>parameterValue. paramId parameterValue = pid) (x # xs) = ?i + 1"
      using False found by (simp only: findIndex_Cons if_False)
    with False found show ?thesis
      by (simp only: handleParamChange_updater_def Let_def State.simps ne suc
          list_update_code if_False if_True not_False_eq_True)
  qed
qed

lemma state_handleParamChange:
  "State.paramValues (state (handleParamChange pid v ed)) =
     updated pid v (State.paramValues (state ed))"
  by (simp add: handleParamChange_def setState_def handleParamChange_updater_def)

lemma props_handleParamChange: "props (handleParamChange pid v ed) = props ed"
  by (simp add: handleParamChange_def setState_def)

lemma handleParamChanges_Nil: "handleParamChanges [] ed = ed"
  by (simp add: handleParamChanges_def)

lemma handleParamChanges_Cons:
  "handleParamChanges ((pid, v) # ups) ed = handleParamChanges ups (handleParamChange pid v ed)"
  by (simp add: handleParamChanges_def)

lemma handleParamChanges_snoc:
  "handleParamChanges (ups @ [(pid, v)]) ed = handleParamChange pid v (handleParamChanges ups ed)"
  by (simp add: handleParamChanges_def)

lemma props_handleParamChanges: "props (handleParamChanges ups ed) = props ed"
  by (induction ups arbitrary: ed) (auto simp: handleParamChanges_Nil handleParamChanges_Cons
      props_handleParamChange)

lemma ids_updated:
  "ids (updated pid v xs) = (if pid \<in> set (ids xs) then ids xs else ids xs @ [pid])"
  by (induction xs) (auto simp: updated_Nil updated_Cons)

lemma updated_absent:
  "pid \<notin> set (ids xs) \<Longrightarrow> updated pid v xs = xs @ [\<lparr>paramId = pid, value = v\<rparr>]"
  by (induction xs) (auto simp: updated_Nil updated_Cons)

lemma updated_first:
  "pid \<notin> set (ids ys) \<Longrightarrow> paramId pv = pid \<Longrightarrow>
   updated pid v (ys @ pv # zs) = ys @ \<lparr>paramId = pid, value = v\<rparr> # zs"
  by (induction ys) (auto simp: updated_Cons)

lemma find_updated_same:
  "find (\<lambda>pv. paramId pv = pid) (updated pid v xs) = Some \<lparr>paramId = pid, value = v\<rparr>"
  by (induction xs) (auto simp: updated_Nil updated_Cons)

lemma find_updated_other:
  "pid' \<noteq> pid \<Longrightarrow>
   find (\<lambda>pv. paramId pv = pid') (updated pid v xs) = find (\<lambda>pv. paramId pv = pid') xs"
  by (induction xs) (auto simp: updated_Nil updated_Cons)

lemma nth_updated_other:
  "k < length xs \<Longrightarrow> paramId (xs ! k) \<noteq> pid \<Longrightarrow> updated pid v xs ! k = xs ! k"
proof (induction xs arbitrary: k)
  case Nil
  then show ?case by simp
next
  case (Cons x xs)
  then show ?case by (cases k) (auto simp: updated_Cons)
qed

lemma updated_twice: "updated pid w (updated pid v xs) = updated pid w xs"
  by (induction xs) (auto simp: updated_Nil updated_Cons)

lemma find_absent: "pid \<notin> set (ids xs) \<Longrightarrow> find (\<lambda>pv. paramId pv = pid) xs = None"
  by (induction xs) auto

lemma find_map_of_entries:
  "map_option value (find (\<lambda>pv. paramId pv = pid) xs) = map_of (entries xs) pid"
  by (induction xs) (auto simp: entries_def)

lemma first_seen_snoc:
  "first_seen (xs @ [x]) = (if x \<in> set xs then first_seen xs else first_seen xs @ [x])"
  by (simp add: first_seen_def)

lemma set_first_seen: "set (first_seen xs) = set xs"
  by (simp add: first_seen_def)

lemma distinct_first_seen: "distinct (first_seen xs)"
  by (simp add: first_seen_def)

lemma first_seen_distinct: "distinct xs \<Longrightarrow> first_seen xs = xs"
  by (simp add: first_seen_def distinct_remdups_id)

lemma map_of_entries_updated:
  "map_of (entries (updated pid v xs)) = (map_of (entries xs))(pid \<mapsto> v)"
  by (induction xs) (auto simp: updated_Nil updated_Cons entries_def)

lemma distinct_ids_updated: "distinct (ids xs) \<Longrightarrow> distinct (ids (updated pid v xs))"
  by (simp add: ids_updated)

lemma state_constructor: "State.paramValues (state (constructor p)) = Model.paramValues (model p)"
  by (simp add: constructor_def)

lemma ids_handleParamChanges:
  "distinct (ids (State.paramValues (state ed))) \<Longrightarrow>
   ids (State.paramValues (state (handleParamChanges ups ed))) =
     first_seen (ids (State.paramValues (state ed)) @ map fst ups)"
proof (induction ups rule: rev_induct)
  case Nil
  then show ?case by (simp add: handleParamChanges_Nil first_seen_distinct)
next
  case (snoc u ups)
  obtain pid v where u: "u = (pid, v)" by (cases u)
  let ?xs = "State.paramValues (state (handleParamChanges ups ed))"
  from snoc have ih: "ids ?xs = first_seen (ids (State.paramValues (state ed)) @ map fst ups)"
    by simp
  then have "set (ids ?xs) = set (ids (State.paramValues (state ed)) @ map fst ups)"
    by (simp only: set_first_seen)
  with ih show ?case
    unfolding u handleParamChanges_snoc state_handleParamChange ids_updated
    using first_seen_snoc [of "ids (State.paramValues (state ed)) @ map fst ups" pid]
    by simp
qed

lemma entries_handleParamChanges:
  "map_of (entries (State.paramValues (state (handleParamChanges ups ed)))) =
     map_of (entries (State.paramValues (state ed))) ++ map_of (rev ups)"
proof (induction ups rule: rev_induct)
  case Nil
  then show ?case by (simp add: handleParamChanges_Nil)
next
  case (snoc u ups)
  obtain pid v where u: "u = (pid, v)" by (cases u)
  from snoc show ?case
    unfolding u handleParamChanges_snoc state_handleParamChange map_of_entries_updated
    by (simp add: fun_eq_iff map_add_def)
qed

lemma distinct_handleParamChanges:
  "distinct (ids (State.paramValues (state ed))) \<Longrightarrow>
   distinct (ids (State.paramValues (state (handleParamChanges ups ed))))"
proof (induction ups arbitrary: ed)
  case Nil
  then show ?case by (simp add: handleParamChanges_Nil)
next
  case (Cons u ups)
  obtain pid v where u: "u = (pid, v)" by (cases u)
  from Cons.prems have "distinct (ids (State.paramValues (state (handleParamChange pid v ed))))"
    by (simp only: state_handleParamChange distinct_ids_updated)
  then show ?case unfolding u handleParamChanges_Cons by (rule Cons.IH)
qed

lemma entry_of_distinct:
  "distinct (ids xs) \<Longrightarrow> pv \<in> set xs \<Longrightarrow> map_of (entries xs) (paramId pv) = Some (value pv)"
  by (rule map_of_is_SomeI) (auto simp: entries_def comp_def)


lemma getParamValue_find:
  "getParamValue ed pid =
     (case find (\<lambda>pv. paramId pv = pid) (State.paramValues (state ed)) of
        Some pv \<Rightarrow> value pv | None \<Rightarrow> [])"
  by (simp add: getParamValue_def)

lemma ids_never_written:
  "pid \<notin> set (ids (State.paramValues (state ed))) \<Longrightarrow> pid \<notin> fst ` set ups \<Longrightarrow>
   pid \<notin> set (ids (State.paramValues (state (handleParamChanges ups ed))))"
proof (induction ups arbitrary: ed)
  case Nil
  then show ?case by (simp add: handleParamChanges_Nil)
next
  case (Cons u ups)
  obtain i v where u: "u = (i, v)" by (cases u)
  with Cons.prems have "i \<noteq> pid" and rest: "pid \<notin> fst ` set ups" by auto
  with Cons.prems(1) have "pid \<notin> set (ids (State.paramValues (state (handleParamChange i v ed))))"
    by (simp add: state_handleParamChange ids_updated)
  then show ?case unfolding u handleParamChanges_Cons using rest by (rule Cons.IH)
qed

lemma handleParamChange_twice:
  "handleParamChange pid w (handleParamChange pid v ed) = handleParamChange pid w ed"
proof -
  have "handleParamChange_updater pid w (handleParamChange_updater pid v (state ed)) =
        handleParamChange_updater pid w (state ed)"
    using updated_twice [of pid w v "State.paramValues (state ed)"]
    by (simp add: handleParamChange_updater_def)
  then show ?thesis by (simp add: handleParamChange_def setState_def)
qed

lemma one_entry_of_distinct:
  "distinct (ids xs) \<Longrightarrow> pid \<in> set (ids xs) \<Longrightarrow>
   length (filter (\<lambda>pv. paramId pv = pid) xs) = 1"
proof (induction xs)
  case Nil
  then show ?case by simp
next
  case (Cons x xs)
  show ?case
  proof (cases "paramId x = pid")
    case True
    with Cons.prems have "pid \<notin> paramId ` set xs" by simp
    then have "\<forall>pv \<in> set xs. paramId pv \<noteq> pid" by blast
    then have "filter (\<lambda>pv. paramId pv = pid) xs = []" by (simp add: filter_empty_conv)
    with True show ?thesis by simp
  next
    case False
    with Cons show ?thesis by auto
  qed
qed


section \<open>One update\<close>

text \<open>
  C1. An update whose identifier some entry carries replaces the first such entry where
  it stands, every other entry keeping its place, and an update whose identifier no
  entry carries appends the new entry at the end. Nothing is asked of the identifier:
  the props, and so the parameter definitions, play no part and are left as they were.
\<close>

theorem update_replaces_first_or_appends:
  fixes ed :: ParamEditor and pid :: int and v :: string
  shows "(pid \<in> set (ids (State.paramValues (state ed))) \<longrightarrow>
           (\<exists>ys pv zs. State.paramValues (state ed) = ys @ pv # zs \<and>
              paramId pv = pid \<and> pid \<notin> set (ids ys) \<and>
              State.paramValues (state (handleParamChange pid v ed)) =
                ys @ \<lparr>paramId = pid, value = v\<rparr> # zs)) \<and>
         (pid \<notin> set (ids (State.paramValues (state ed))) \<longrightarrow>
            State.paramValues (state (handleParamChange pid v ed)) =
              State.paramValues (state ed) @ [\<lparr>paramId = pid, value = v\<rparr>]) \<and>
         props (handleParamChange pid v ed) = props ed"
proof (intro conjI impI)
  assume "pid \<in> set (ids (State.paramValues (state ed)))"
  then have "\<exists>ys zs. ids (State.paramValues (state ed)) = ys @ pid # zs \<and> pid \<notin> set ys"
    by (rule split_list_first)
  then obtain ys i zs where split: "ids (State.paramValues (state ed)) = ys @ i # zs"
    and i: "i = pid" and first: "pid \<notin> set ys"
    by blast
  from split obtain ys' pv zs' where xs: "State.paramValues (state ed) = ys' @ pv # zs'"
    and "ids ys' = ys" and "paramId pv = i"
    by (auto simp: map_eq_append_conv map_eq_Cons_conv)
  with i first have "paramId pv = pid" and "pid \<notin> set (ids ys')" by simp_all
  with xs show "\<exists>ys pv zs. State.paramValues (state ed) = ys @ pv # zs \<and>
      paramId pv = pid \<and> pid \<notin> set (ids ys) \<and>
      State.paramValues (state (handleParamChange pid v ed)) =
        ys @ \<lparr>paramId = pid, value = v\<rparr> # zs"
    using updated_first [of pid ys' pv v zs'] by (simp only: state_handleParamChange) blast
next
  assume "pid \<notin> set (ids (State.paramValues (state ed)))"
  then show "State.paramValues (state (handleParamChange pid v ed)) =
      State.paramValues (state ed) @ [\<lparr>paramId = pid, value = v\<rparr>]"
    unfolding state_handleParamChange by (rule updated_absent)
next
  show "props (handleParamChange pid v ed) = props ed" by (rule props_handleParamChange)
qed

theorem update_replaces_first_or_appends_witness:
  "3 \<notin> set (ids (State.paramValues (state (constructor testProps)))) \<and>
   State.paramValues (state (handleParamChange 3 ''hlopok'' (constructor testProps))) =
     [\<lparr>paramId = 1, value = ''povsednevnoe''\<rparr>, \<lparr>paramId = 2, value = ''maksi''\<rparr>,
      \<lparr>paramId = 3, value = ''hlopok''\<rparr>] \<and>
   2 \<in> set (ids (State.paramValues (state (constructor testProps)))) \<and>
   State.paramValues (state (handleParamChange 2 ''mini'' (constructor testProps))) =
     [\<lparr>paramId = 1, value = ''povsednevnoe''\<rparr>, \<lparr>paramId = 2, value = ''mini''\<rparr>]"
proof -
  have init: "State.paramValues (state (constructor testProps)) =
      [\<lparr>paramId = 1, value = ''povsednevnoe''\<rparr>, \<lparr>paramId = 2, value = ''maksi''\<rparr>]"
    by (simp add: constructor_def testProps_def testModel_def)
  have a: "State.paramValues (state (handleParamChange 3 ''hlopok'' (constructor testProps))) =
      [\<lparr>paramId = 1, value = ''povsednevnoe''\<rparr>, \<lparr>paramId = 2, value = ''maksi''\<rparr>,
       \<lparr>paramId = 3, value = ''hlopok''\<rparr>]"
    using update_replaces_first_or_appends [of 3 "constructor testProps" "''hlopok''"]
    by (simp add: init)
  obtain ys pv zs where split: "State.paramValues (state (constructor testProps)) = ys @ pv # zs"
    and pv: "paramId pv = 2" and ys: "2 \<notin> set (ids ys)"
    and res: "State.paramValues (state (handleParamChange 2 ''mini'' (constructor testProps))) =
      ys @ \<lparr>paramId = 2, value = ''mini''\<rparr> # zs"
    using update_replaces_first_or_appends [of 2 "constructor testProps" "''mini''"]
    by (auto simp: init)
  from split pv ys have "ys = [\<lparr>paramId = 1, value = ''povsednevnoe''\<rparr>] \<and> zs = []"
    by (auto simp: init Cons_eq_append_conv)
  with res a show ?thesis by (simp add: init)
qed

text \<open>
  C3. A read of an identifier just after an update of that identifier returns the
  value written; and a read of an identifier that the initial model does not carry and
  that no update of the sequence wrote returns the empty string.
\<close>

theorem read_after_update_and_default:
  "getParamValue (handleParamChange pid v ed) pid = v \<and>
   (pid' \<notin> set (ids (Model.paramValues (model p))) \<and> pid' \<notin> fst ` set ups \<longrightarrow>
      getParamValue (handleParamChanges ups (constructor p)) pid' = [])"
proof (intro conjI impI)
  show "getParamValue (handleParamChange pid v ed) pid = v"
    by (simp add: getParamValue_find state_handleParamChange find_updated_same)
next
  assume "pid' \<notin> set (ids (Model.paramValues (model p))) \<and> pid' \<notin> fst ` set ups"
  then have "pid' \<notin> set (ids (State.paramValues (state (handleParamChanges ups (constructor p)))))"
    by (intro ids_never_written) (simp_all add: state_constructor)
  then show "getParamValue (handleParamChanges ups (constructor p)) pid' = []"
    by (simp add: getParamValue_find find_absent)
qed

theorem read_after_update_and_default_witness:
  "getParamValue (handleParamChange 1 ''vechernee'' (constructor testProps)) 1 = ''vechernee'' \<and>
   3 \<notin> set (ids (Model.paramValues (model testProps))) \<and>
   (3::int) \<notin> fst ` set [(1, ''vechernee''), (2, ''mini'')] \<and>
   getParamValue (handleParamChanges [(1, ''vechernee''), (2, ''mini'')] (constructor testProps)) 3 = []"
  using read_after_update_and_default
    [where pid = 1 and v = "''vechernee''" and ed = "constructor testProps" and pid' = 3
       and p = testProps and ups = "[(1, ''vechernee''), (2, ''mini'')]"]
  by (simp add: testProps_def testModel_def)

text \<open>
  C9. An update of one identifier leaves the read of every other identifier as it was,
  and leaves in its place every entry that carries another identifier.
\<close>

theorem update_frame:
  assumes "pid' \<noteq> pid"
  shows "getParamValue (handleParamChange pid v ed) pid' = getParamValue ed pid' \<and>
         (\<forall>k < length (State.paramValues (state ed)).
            paramId (State.paramValues (state ed) ! k) \<noteq> pid \<longrightarrow>
            State.paramValues (state (handleParamChange pid v ed)) ! k =
              State.paramValues (state ed) ! k)"
  using assms
  by (simp add: getParamValue_find state_handleParamChange find_updated_other nth_updated_other)

theorem update_frame_witness:
  "(2::int) \<noteq> 1 \<and>
   getParamValue (handleParamChange 1 ''vechernee'' (constructor testProps)) 2 = ''maksi'' \<and>
   getParamValue (constructor testProps) 2 = ''maksi'' \<and>
   (1::nat) < length (State.paramValues (state (constructor testProps))) \<and>
   paramId (State.paramValues (state (constructor testProps)) ! 1) \<noteq> 1 \<and>
   State.paramValues (state (handleParamChange 1 ''vechernee'' (constructor testProps))) ! 1 =
     \<lparr>paramId = 2, value = ''maksi''\<rparr>"
proof -
  have init: "State.paramValues (state (constructor testProps)) =
      [\<lparr>paramId = 1, value = ''povsednevnoe''\<rparr>, \<lparr>paramId = 2, value = ''maksi''\<rparr>]"
    by (simp add: constructor_def testProps_def testModel_def)
  have read: "getParamValue (constructor testProps) 2 = ''maksi''"
    by (simp add: getParamValue_def init)
  have ne: "(2::int) \<noteq> 1" by simp
  from update_frame [OF ne, of "''vechernee''" "constructor testProps"] read init
  show ?thesis by simp
qed

text \<open>
  C10, as the specification states it, fails: in a store seeded from a model with two
  entries for one identifier, the second with the empty string, an entry with the
  empty string exists for that identifier, yet the read returns the value of the first.
\<close>

theorem read_of_shadowed_empty_entry_counterexample:
  "\<lparr>paramId = 1, value = []\<rparr> \<in> set (State.paramValues (state (constructor
       \<lparr>params = testParameters,
        model = \<lparr>Model.paramValues = [\<lparr>paramId = 1, value = ''a''\<rparr>, \<lparr>paramId = 1, value = []\<rparr>],
                 colors = []\<rparr>\<rparr>))) \<and>
   getParamValue (constructor
       \<lparr>params = testParameters,
        model = \<lparr>Model.paramValues = [\<lparr>paramId = 1, value = ''a''\<rparr>, \<lparr>paramId = 1, value = []\<rparr>],
                 colors = []\<rparr>\<rparr>) 1 = ''a'' \<and>
   getParamValue (constructor
       \<lparr>params = testParameters,
        model = \<lparr>Model.paramValues = [\<lparr>paramId = 1, value = ''a''\<rparr>, \<lparr>paramId = 1, value = []\<rparr>],
                 colors = []\<rparr>\<rparr>) 1 \<noteq> []"
  by (simp add: constructor_def getParamValue_def)

text \<open>
  C10, amended. For an identifier the store does not carry, the read is the empty
  string; after an update of that identifier to the empty string the store does carry
  an entry for it and is another store, yet every read, of that identifier and of any
  other, returns what it returned before: reads alone cannot tell the two stores apart.
  And in a store whose identifiers are pairwise distinct, the read of an identifier
  whose entry holds the empty string is the empty string.
\<close>

theorem read_cannot_tell_absent_from_empty:
  assumes "pid \<notin> set (ids (State.paramValues (state ed)))"
  shows "getParamValue ed pid = [] \<and>
         getParamValue (handleParamChange pid [] ed) pid = [] \<and>
         pid \<in> set (ids (State.paramValues (state (handleParamChange pid [] ed)))) \<and>
         handleParamChange pid [] ed \<noteq> ed \<and>
         getParamValue (handleParamChange pid [] ed) = getParamValue ed \<and>
         (distinct (ids (State.paramValues (state ed'))) \<and>
          pv \<in> set (State.paramValues (state ed')) \<and> value pv = [] \<longrightarrow>
            getParamValue ed' (paramId pv) = [])"
proof (intro conjI impI)
  assume stored: "distinct (ids (State.paramValues (state ed'))) \<and>
      pv \<in> set (State.paramValues (state ed')) \<and> value pv = []"
  then have "map_of (entries (State.paramValues (state ed'))) (paramId pv) = Some (value pv)"
    by (simp add: entry_of_distinct)
  then have "map_option value
      (find (\<lambda>q. paramId q = paramId pv) (State.paramValues (state ed'))) = Some []"
    using stored by (simp add: find_map_of_entries)
  then show "getParamValue ed' (paramId pv) = []"
    by (auto simp: getParamValue_find split: option.splits)
next
  from assms show absent: "getParamValue ed pid = []"
    by (simp add: getParamValue_find find_absent)
  show set: "getParamValue (handleParamChange pid [] ed) pid = []"
    by (simp add: getParamValue_find state_handleParamChange find_updated_same)
  show present: "pid \<in> set (ids (State.paramValues (state (handleParamChange pid [] ed))))"
    by (simp add: state_handleParamChange ids_updated)
  from assms present show "handleParamChange pid [] ed \<noteq> ed" by metis
  show "getParamValue (handleParamChange pid [] ed) = getParamValue ed"
  proof
    fix j
    show "getParamValue (handleParamChange pid [] ed) j = getParamValue ed j"
    proof (cases "j = pid")
      case True
      with absent set show ?thesis by simp
    next
      case False
      then show ?thesis
        by (simp add: getParamValue_find state_handleParamChange find_updated_other)
    qed
  qed
qed

theorem read_cannot_tell_absent_from_empty_witness:
  "3 \<notin> set (ids (State.paramValues (state (constructor testProps)))) \<and>
   getParamValue (constructor testProps) 3 = [] \<and>
   getParamValue (handleParamChange 3 [] (constructor testProps)) 3 = [] \<and>
   State.paramValues (state (handleParamChange 3 [] (constructor testProps))) =
     [\<lparr>paramId = 1, value = ''povsednevnoe''\<rparr>, \<lparr>paramId = 2, value = ''maksi''\<rparr>,
      \<lparr>paramId = 3, value = []\<rparr>] \<and>
   handleParamChange 3 [] (constructor testProps) \<noteq> constructor testProps"
proof -
  have init: "State.paramValues (state (constructor testProps)) =
      [\<lparr>paramId = 1, value = ''povsednevnoe''\<rparr>, \<lparr>paramId = 2, value = ''maksi''\<rparr>]"
    by (simp add: constructor_def testProps_def testModel_def)
  then have absent: "3 \<notin> set (ids (State.paramValues (state (constructor testProps))))"
    by simp
  have "State.paramValues (state (handleParamChange 3 [] (constructor testProps))) =
     [\<lparr>paramId = 1, value = ''povsednevnoe''\<rparr>, \<lparr>paramId = 2, value = ''maksi''\<rparr>,
      \<lparr>paramId = 3, value = []\<rparr>]"
    by (simp add: state_handleParamChange init updated_Cons updated_Nil)
  with read_cannot_tell_absent_from_empty
    [OF absent, where ed' = "handleParamChange 3 [] (constructor testProps)"
       and pv = "\<lparr>paramId = 3, value = []\<rparr>"]
    absent show ?thesis by simp
qed


section \<open>Sequences of updates\<close>

text \<open>
  C2. When the identifiers of the initial model are pairwise distinct, the store after
  any sequence of updates has the identifiers of the initial model and of the updates,
  each once, in the order of their first appearance, and the value of each entry is the
  last one written for its identifier, or the initial one when none was written
  (\<open>map_of (rev ups)\<close> finds the last pair written for an identifier).
\<close>

theorem updates_one_entry_per_id_last_value:
  assumes "distinct (ids (Model.paramValues (model p)))"
  shows "ids (State.paramValues (state (handleParamChanges ups (constructor p)))) =
           first_seen (ids (Model.paramValues (model p)) @ map fst ups) \<and>
         distinct (ids (State.paramValues (state (handleParamChanges ups (constructor p))))) \<and>
         set (ids (State.paramValues (state (handleParamChanges ups (constructor p))))) =
           set (ids (Model.paramValues (model p))) \<union> fst ` set ups \<and>
         (\<forall>pv \<in> set (State.paramValues (state (handleParamChanges ups (constructor p)))).
            Some (value pv) =
              (map_of (entries (Model.paramValues (model p))) ++ map_of (rev ups)) (paramId pv))"
proof -
  let ?final = "State.paramValues (state (handleParamChanges ups (constructor p)))"
  from assms have init: "distinct (ids (State.paramValues (state (constructor p))))"
    by (simp only: state_constructor)
  from init have order: "ids ?final = first_seen (ids (Model.paramValues (model p)) @ map fst ups)"
    using ids_handleParamChanges [of "constructor p" ups] by (simp only: state_constructor)
  then have once: "distinct (ids ?final)" by (simp only: distinct_first_seen)
  from order have all: "set (ids ?final) = set (ids (Model.paramValues (model p))) \<union> fst ` set ups"
    by (simp only: set_first_seen set_append set_map)
  have "\<forall>pv \<in> set ?final. Some (value pv) =
      (map_of (entries (Model.paramValues (model p))) ++ map_of (rev ups)) (paramId pv)"
  proof
    fix pv assume "pv \<in> set ?final"
    with once have "map_of (entries ?final) (paramId pv) = Some (value pv)"
      by (rule entry_of_distinct)
    then show "Some (value pv) =
        (map_of (entries (Model.paramValues (model p))) ++ map_of (rev ups)) (paramId pv)"
      using entries_handleParamChanges [of ups "constructor p"]
      by (simp only: state_constructor)
  qed
  with order once all show ?thesis by blast
qed

theorem updates_one_entry_per_id_last_value_witness:
  "distinct (ids (Model.paramValues (model testProps))) \<and>
   ids (State.paramValues (state (handleParamChanges
          [(3, ''hlopok''), (1, ''vechernee''), (3, ''len'')] (constructor testProps)))) =
     [1, 2, 3] \<and>
   \<lparr>paramId = 3, value = ''len''\<rparr> \<in> set (State.paramValues (state (handleParamChanges
          [(3, ''hlopok''), (1, ''vechernee''), (3, ''len'')] (constructor testProps)))) \<and>
   (map_of (entries (Model.paramValues (model testProps))) ++
      map_of (rev [(3, ''hlopok''), (1, ''vechernee''), (3, ''len'')])) 3 = Some ''len'' \<and>
   State.paramValues (state (handleParamChanges
          [(3, ''hlopok''), (1, ''vechernee''), (3, ''len'')] (constructor testProps))) =
     [\<lparr>paramId = 1, value = ''vechernee''\<rparr>, \<lparr>paramId = 2, value = ''maksi''\<rparr>,
      \<lparr>paramId = 3, value = ''len''\<rparr>]"
proof -
  have d: "distinct (ids (Model.paramValues (model testProps)))"
    by (simp add: testProps_def testModel_def)
  have final: "State.paramValues (state (handleParamChanges
          [(3, ''hlopok''), (1, ''vechernee''), (3, ''len'')] (constructor testProps))) =
     [\<lparr>paramId = 1, value = ''vechernee''\<rparr>, \<lparr>paramId = 2, value = ''maksi''\<rparr>,
      \<lparr>paramId = 3, value = ''len''\<rparr>]"
    by (simp add: handleParamChanges_Cons handleParamChanges_Nil state_handleParamChange
        state_constructor updated_Cons updated_Nil testProps_def testModel_def)
  from updates_one_entry_per_id_last_value
    [OF d, of "[(3, ''hlopok''), (1, ''vechernee''), (3, ''len'')]"]
  have "ids (State.paramValues (state (handleParamChanges
          [(3, ''hlopok''), (1, ''vechernee''), (3, ''len'')] (constructor testProps)))) =
     first_seen (ids (Model.paramValues (model testProps)) @
       map fst [(3, ''hlopok''), (1, ''vechernee''), (3::int, ''len'')])"
    by blast
  then have "ids (State.paramValues (state (handleParamChanges
          [(3, ''hlopok''), (1, ''vechernee''), (3, ''len'')] (constructor testProps)))) =
     [1, 2, 3]"
    by (simp add: first_seen_def testProps_def testModel_def)
  with d final show ?thesis
    by (simp add: entries_def testProps_def testModel_def)
qed

text \<open>
  C4. When the identifiers of the initial model are pairwise distinct, so are the
  identifiers of the store after any sequence of updates; and a second update of an
  identifier after a first leaves the store the second alone would leave, with one
  entry for that identifier.
\<close>

theorem ids_stay_distinct:
  assumes "distinct (ids (Model.paramValues (model p)))"
  shows "distinct (ids (State.paramValues (state (handleParamChanges ups (constructor p))))) \<and>
         handleParamChange pid w (handleParamChange pid v (handleParamChanges ups (constructor p))) =
           handleParamChange pid w (handleParamChanges ups (constructor p)) \<and>
         length (filter (\<lambda>pv. paramId pv = pid)
           (State.paramValues (state (handleParamChange pid w
              (handleParamChange pid v (handleParamChanges ups (constructor p))))))) = 1"
proof -
  let ?ed = "handleParamChanges ups (constructor p)"
  from assms have "distinct (ids (State.paramValues (state (constructor p))))"
    by (simp only: state_constructor)
  then have inv: "distinct (ids (State.paramValues (state ?ed)))"
    by (rule distinct_handleParamChanges)
  have twice: "handleParamChange pid w (handleParamChange pid v ?ed) = handleParamChange pid w ?ed"
    by (rule handleParamChange_twice)
  let ?xs = "State.paramValues (state (handleParamChange pid w ?ed))"
  from inv have d: "distinct (ids ?xs)"
    by (simp only: state_handleParamChange distinct_ids_updated)
  have "pid \<in> set (ids ?xs)" by (simp add: state_handleParamChange ids_updated)
  with d have "length (filter (\<lambda>pv. paramId pv = pid) ?xs) = 1"
    by (rule one_entry_of_distinct)
  with inv twice show ?thesis by simp
qed

theorem ids_stay_distinct_witness:
  "distinct (ids (Model.paramValues (model testProps))) \<and>
   distinct (ids (State.paramValues (state (handleParamChanges
      [(3, ''hlopok''), (3, ''len'')] (constructor testProps))))) \<and>
   State.paramValues (state (handleParamChange 1 ''b'' (handleParamChange 1 ''a''
      (handleParamChanges [(3, ''hlopok''), (3, ''len'')] (constructor testProps))))) =
     [\<lparr>paramId = 1, value = ''b''\<rparr>, \<lparr>paramId = 2, value = ''maksi''\<rparr>,
      \<lparr>paramId = 3, value = ''len''\<rparr>]"
proof -
  have d: "distinct (ids (Model.paramValues (model testProps)))"
    by (simp add: testProps_def testModel_def)
  have final: "State.paramValues (state (handleParamChange 1 ''b''
      (handleParamChanges [(3, ''hlopok''), (3, ''len'')] (constructor testProps)))) =
     [\<lparr>paramId = 1, value = ''b''\<rparr>, \<lparr>paramId = 2, value = ''maksi''\<rparr>,
      \<lparr>paramId = 3, value = ''len''\<rparr>]"
    by (simp add: handleParamChanges_Cons handleParamChanges_Nil state_handleParamChange
        state_constructor updated_Cons updated_Nil testProps_def testModel_def)
  from ids_stay_distinct [OF d, of "[(3, ''hlopok''), (3, ''len'')]" 1 "''b''" "''a''"] d final
  show ?thesis by simp
qed


section \<open>References: what the component allocates and what it keeps\<close>

lemma findIndex_from_map: "findIndex_from k p (map f xs) = findIndex_from k (\<lambda>x. p (f x)) xs"
  by (induction xs arbitrary: k) simp_all

lemma findIndex_map: "findIndex p (map f xs) = findIndex (\<lambda>x. p (f x)) xs"
  by (simp add: findIndex_def findIndex_from_map)

lemma keeps_refl: "keeps h h"
  by (simp add: keeps_def)

lemma keeps_trans: "keeps h h' \<Longrightarrow> keeps h' h'' \<Longrightarrow> keeps h h''"
  unfolding keeps_def by (metis prefix_order.order_trans)

lemma prefix_nth: "prefix xs ys \<Longrightarrow> i < length xs \<Longrightarrow> ys ! i = xs ! i"
  by (auto simp: prefix_def nth_append)

lemma keeps_array:
  "keeps h h' \<Longrightarrow> a < length (paramValueArrays h) \<Longrightarrow>
   paramValueArrays h' ! a = paramValueArrays h ! a"
  by (simp add: keeps_def prefix_nth)

lemma keeps_model:
  "keeps h h' \<Longrightarrow> m < length (modelObjs h) \<Longrightarrow> modelObjs h' ! m = modelObjs h ! m"
  by (simp add: keeps_def prefix_nth)

lemma heap_ok_array:
  "heap_ok h \<Longrightarrow> a < length (paramValueArrays h) \<Longrightarrow> r \<in> set (paramValueArrays h ! a) \<Longrightarrow>
   r < length (paramValueObjs h)"
  by (auto simp: heap_ok_def)

lemma heap_ok_model:
  "heap_ok h \<Longrightarrow> m < length (modelObjs h) \<Longrightarrow>
   paramValues_ref (modelObjs h ! m) < length (paramValueArrays h) \<and>
   colors_ref (modelObjs h ! m) < length (colorArrays h)"
  by (auto simp: heap_ok_def)

lemma keeps_paramValues_of:
  assumes "keeps h h'" and "heap_ok h" and "a < length (paramValueArrays h)"
  shows "paramValues_of h' a = paramValues_of h a"
proof -
  from assms have arr: "paramValueArrays h' ! a = paramValueArrays h ! a"
    by (simp add: keeps_array)
  have "\<forall>r \<in> set (paramValueArrays h ! a). paramValueObjs h' ! r = paramValueObjs h ! r"
  proof
    fix r assume "r \<in> set (paramValueArrays h ! a)"
    with assms have "r < length (paramValueObjs h)" by (simp add: heap_ok_array)
    with assms(1) show "paramValueObjs h' ! r = paramValueObjs h ! r"
      by (simp add: keeps_def prefix_nth)
  qed
  with arr show ?thesis by (simp add: paramValues_of_def)
qed

lemma keeps_model_of:
  assumes "keeps h h'" and "heap_ok h" and "m < length (modelObjs h)"
  shows "model_of h' m = model_of h m"
proof -
  from assms have obj: "modelObjs h' ! m = modelObjs h ! m" by (simp add: keeps_model)
  from assms have "paramValues_ref (modelObjs h ! m) < length (paramValueArrays h)"
    by (simp add: heap_ok_model)
  with assms have "paramValues_of h' (paramValues_ref (modelObjs h ! m)) =
      paramValues_of h (paramValues_ref (modelObjs h ! m))"
    by (simp add: keeps_paramValues_of)
  moreover from assms(1) have "colorArrays h' = colorArrays h" by (simp add: keeps_def)
  ultimately show ?thesis using obj by (simp add: model_of_def)
qed

lemma handleParamChange_ref_eq:
  "handleParamChange_ref pid v (ed, h) =
     (ed\<lparr>state_paramValues := length (paramValueArrays h)\<rparr>,
      h\<lparr>paramValueObjs := paramValueObjs h @ [\<lparr>paramId = pid, value = v\<rparr>],
        paramValueArrays := paramValueArrays h @
          [if findIndex (\<lambda>r. paramId (paramValueObjs h ! r) = pid)
                (paramValueArrays h ! state_paramValues ed) \<noteq> - 1
           then (paramValueArrays h ! state_paramValues ed)
                  [nat (findIndex (\<lambda>r. paramId (paramValueObjs h ! r) = pid)
                     (paramValueArrays h ! state_paramValues ed)) := length (paramValueObjs h)]
           else paramValueArrays h ! state_paramValues ed @ [length (paramValueObjs h)]]\<rparr>)"
  by (simp add: handleParamChange_ref_def new_array_def new_paramValue_def array_assign_def
      array_push_def Let_def)


lemma handleParamChange_ref_frame:
  assumes "handleParamChange_ref pid v (ed, h) = (ed', h')"
  shows "keeps h h'" and "modelObjs h' = modelObjs h"
    and "props_model ed' = props_model ed" and "props_params ed' = props_params ed"
    and "state_paramValues ed' = length (paramValueArrays h)"
    and "length (paramValueArrays h') = Suc (length (paramValueArrays h))"
  using assms unfolding handleParamChange_ref_eq by (auto simp: keeps_def)

lemma handleParamChange_ref_ok:
  assumes "heap_ok h" and "editor_ok ed h"
    and "handleParamChange_ref pid v (ed, h) = (ed', h')"
  shows "heap_ok h' \<and> editor_ok ed' h'"
proof -
  let ?prev = "paramValueArrays h ! state_paramValues ed"
  let ?n = "length (paramValueObjs h)"
  let ?i = "findIndex (\<lambda>r. paramId (paramValueObjs h ! r) = pid) ?prev"
  let ?new = "if ?i \<noteq> - 1 then ?prev[nat ?i := ?n] else ?prev @ [?n]"
  from assms(1,2) have prev: "\<forall>r \<in> set ?prev. r < ?n"
    by (auto simp: editor_ok_def heap_ok_def)
  have "set (?prev[nat ?i := ?n]) \<subseteq> insert ?n (set ?prev)"
    by (rule set_update_subset_insert)
  with prev have upd: "\<forall>r \<in> set (?prev[nat ?i := ?n]). r < Suc ?n"
    by (auto simp: less_Suc_eq)
  from prev have push: "\<forall>r \<in> set (?prev @ [?n]). r < Suc ?n"
    by (auto simp: less_Suc_eq)
  from upd push have new: "\<forall>r \<in> set ?new. r < Suc ?n"
    by (cases "?i = - 1") simp_all
  from assms(1) have old: "\<forall>a \<in> set (paramValueArrays h). \<forall>r \<in> set a. r < Suc ?n"
    by (auto simp: heap_ok_def less_Suc_eq)
  from assms(1) have models: "\<forall>m \<in> set (modelObjs h).
      paramValues_ref m < Suc (length (paramValueArrays h)) \<and> colors_ref m < length (colorArrays h)"
    by (auto simp: heap_ok_def less_Suc_eq)
  from assms(3) have h': "paramValueObjs h' = paramValueObjs h @ [\<lparr>paramId = pid, value = v\<rparr>]"
    "paramValueArrays h' = paramValueArrays h @ [?new]"
    "modelObjs h' = modelObjs h" "colorArrays h' = colorArrays h"
    unfolding handleParamChange_ref_eq by auto
  from old new models have "heap_ok h'"
    unfolding heap_ok_def h' by (simp only: set_append length_append ball_Un) simp
  moreover from assms(2,3) have "editor_ok ed' h'"
    unfolding handleParamChange_ref_eq by (auto simp: editor_ok_def)
  ultimately show ?thesis ..
qed

lemma handleParamChange_ref_simulates:
  assumes "heap_ok h" and "editor_ok ed h"
    and "handleParamChange_ref pid v (ed, h) = (ed', h')"
  shows "paramValues_of h' (state_paramValues ed') =
           updated pid v (paramValues_of h (state_paramValues ed))"
proof -
  let ?prev = "paramValueArrays h ! state_paramValues ed"
  let ?objs = "paramValueObjs h @ [\<lparr>paramId = pid, value = v\<rparr>]"
  let ?i = "findIndex (\<lambda>r. paramId (paramValueObjs h ! r) = pid) ?prev"
  from assms(1,2) have prev: "\<forall>r \<in> set ?prev. r < length (paramValueObjs h)"
    by (auto simp: editor_ok_def heap_ok_def)
  then have same: "map (\<lambda>r. ?objs ! r) ?prev = map (\<lambda>r. paramValueObjs h ! r) ?prev"
    by (simp add: nth_append)
  have "map (\<lambda>r. ?objs ! r)
          (if ?i \<noteq> - 1 then ?prev[nat ?i := length (paramValueObjs h)]
           else ?prev @ [length (paramValueObjs h)]) =
        updated pid v (map (\<lambda>r. paramValueObjs h ! r) ?prev)"
    unfolding handleParamChange_updater_def Let_def
    unfolding if_distrib [of "map _"] if_distrib [of State.paramValues]
    by (simp add: same map_update findIndex_map)
  with assms(3) show ?thesis
    unfolding handleParamChange_ref_eq by (auto simp: paramValues_of_def)
qed

lemma handleParamChange_updater_eq:
  "handleParamChange_updater pid v s = \<lparr>paramValues = updated pid v (State.paramValues s)\<rparr>"
  by (cases s) (simp add: handleParamChange_updater_def)

lemma handleParamChanges_foldl:
  "handleParamChanges ups ed =
     ed\<lparr>state := \<lparr>paramValues =
       foldl (\<lambda>xs (pid, v). updated pid v xs) (State.paramValues (state ed)) ups\<rparr>\<rparr>"
proof (induction ups arbitrary: ed)
  case Nil
  then show ?case by (simp add: handleParamChanges_Nil)
next
  case (Cons u ups)
  obtain pid v where u: "u = (pid, v)" by (cases u)
  have step: "handleParamChange pid v ed =
      ed\<lparr>state := \<lparr>paramValues = updated pid v (State.paramValues (state ed))\<rparr>\<rparr>"
    unfolding handleParamChange_def setState_def
    by (subst handleParamChange_updater_eq) (rule refl)
  show ?case
    unfolding u handleParamChanges_Cons Cons.IH step by simp
qed

lemma handleParamChanges_ref_Nil: "handleParamChanges_ref [] c = c"
  by (simp add: handleParamChanges_ref_def)

lemma handleParamChanges_ref_Cons:
  "handleParamChanges_ref ((pid, v) # ups) c =
     handleParamChanges_ref ups (handleParamChange_ref pid v c)"
  by (simp add: handleParamChanges_ref_def)

lemma handleParamChanges_ref_run:
  assumes "heap_ok h" and "editor_ok ed h"
    and "handleParamChanges_ref ups (ed, h) = (ed', h')"
  shows "heap_ok h' \<and> editor_ok ed' h' \<and> keeps h h' \<and> modelObjs h' = modelObjs h \<and>
         props_model ed' = props_model ed \<and> props_params ed' = props_params ed \<and>
         paramValues_of h' (state_paramValues ed') =
           foldl (\<lambda>xs (pid, v). updated pid v xs) (paramValues_of h (state_paramValues ed)) ups \<and>
         (state_paramValues ed' = state_paramValues ed \<or>
          length (paramValueArrays h) \<le> state_paramValues ed')"
  using assms
proof (induction ups arbitrary: ed h)
  case Nil
  then show ?case by (simp add: handleParamChanges_ref_Nil keeps_refl)
next
  case (Cons u ups)
  obtain pid v where u: "u = (pid, v)" by (cases u)
  obtain ed1 h1 where step: "handleParamChange_ref pid v (ed, h) = (ed1, h1)"
    by (cases "handleParamChange_ref pid v (ed, h)")
  from Cons.prems(3) have rest: "handleParamChanges_ref ups (ed1, h1) = (ed', h')"
    by (simp add: u handleParamChanges_ref_Cons step)
  from Cons.prems(1,2) step have ok1: "heap_ok h1" "editor_ok ed1 h1"
    using handleParamChange_ref_ok by blast+
  note ih = Cons.IH [OF ok1 rest]
  note fr = handleParamChange_ref_frame [OF step]
  from Cons.prems(1,2) step
  have sim: "paramValues_of h1 (state_paramValues ed1) =
      updated pid v (paramValues_of h (state_paramValues ed))"
    by (rule handleParamChange_ref_simulates)
  from ih fr(1) have "keeps h h'" by (blast intro: keeps_trans)
  moreover from ih fr have "state_paramValues ed' = state_paramValues ed \<or>
      length (paramValueArrays h) \<le> state_paramValues ed'"
    by auto
  ultimately show ?case using ih fr sim by (simp add: u)
qed

lemma constructor_ref_eq:
  "constructor_ref ps m h =
     (\<lparr>props_params = ps, props_model = m, state_paramValues = length (paramValueArrays h)\<rparr>,
      h\<lparr>paramValueArrays := paramValueArrays h @
           [paramValueArrays h ! paramValues_ref (modelObjs h ! m)]\<rparr>)"
  by (simp add: constructor_ref_def new_array_def)

lemma constructor_ref_ok:
  assumes "heap_ok h" and "m < length (modelObjs h)"
    and "constructor_ref ps m h = (ed, h')"
  shows "heap_ok h' \<and> editor_ok ed h' \<and> keeps h h' \<and> modelObjs h' = modelObjs h \<and>
         props_model ed = m \<and> props_params ed = ps \<and>
         state_paramValues ed = length (paramValueArrays h) \<and>
         paramValues_of h' (state_paramValues ed) =
           paramValues_of h (paramValues_ref (modelObjs h ! m))"
proof -
  let ?a = "paramValues_ref (modelObjs h ! m)"
  from assms(1,2) have a: "?a < length (paramValueArrays h)" by (simp add: heap_ok_model)
  then have "paramValueArrays h ! ?a \<in> set (paramValueArrays h)" by simp
  with assms(1) have copy: "\<forall>r \<in> set (paramValueArrays h ! ?a). r < length (paramValueObjs h)"
    by (simp add: heap_ok_def)
  from assms(3) have h': "paramValueObjs h' = paramValueObjs h"
    "paramValueArrays h' = paramValueArrays h @ [paramValueArrays h ! ?a]"
    "modelObjs h' = modelObjs h" "colorArrays h' = colorArrays h"
    and ed: "ed = \<lparr>props_params = ps, props_model = m,
      state_paramValues = length (paramValueArrays h)\<rparr>"
    unfolding constructor_ref_eq by auto
  from assms(1) copy have "heap_ok h'"
    unfolding heap_ok_def h' by (auto simp: less_Suc_eq)
  moreover from assms(2) have "editor_ok ed h'" by (simp add: editor_ok_def h' ed)
  moreover have "keeps h h'" by (simp add: keeps_def h')
  moreover have "paramValues_of h' (state_paramValues ed) = paramValues_of h ?a"
    by (simp add: paramValues_of_def h' ed)
  ultimately show ?thesis by (simp add: h' ed)
qed

lemma getModel_ref_eq:
  "getModel_ref ed h =
     (length (modelObjs h),
      h\<lparr>modelObjs := modelObjs h @
           [\<lparr>paramValues_ref = state_paramValues ed,
             colors_ref = colors_ref (modelObjs h ! props_model ed)\<rparr>]\<rparr>)"
  by (simp add: getModel_ref_def new_model_def)

lemma getModel_ref_ok:
  assumes "heap_ok h" and "editor_ok ed h" and "getModel_ref ed h = (m, h')"
  shows "heap_ok h' \<and> editor_ok ed h' \<and> keeps h h' \<and> m = length (modelObjs h) \<and>
         paramValueObjs h' = paramValueObjs h \<and> paramValueArrays h' = paramValueArrays h \<and>
         modelObjs h' ! m =
           \<lparr>paramValues_ref = state_paramValues ed,
            colors_ref = colors_ref (modelObjs h ! props_model ed)\<rparr>"
proof -
  from assms(3) have h': "paramValueObjs h' = paramValueObjs h"
    "paramValueArrays h' = paramValueArrays h" "colorArrays h' = colorArrays h"
    "modelObjs h' = modelObjs h @ [\<lparr>paramValues_ref = state_paramValues ed,
        colors_ref = colors_ref (modelObjs h ! props_model ed)\<rparr>]"
    and m: "m = length (modelObjs h)"
    unfolding getModel_ref_eq by auto
  from assms(1,2) have "colors_ref (modelObjs h ! props_model ed) < length (colorArrays h)"
    by (simp add: editor_ok_def heap_ok_model)
  with assms(1,2) have "heap_ok h'"
    unfolding heap_ok_def h' by (auto simp: editor_ok_def)
  moreover from assms(2) have "editor_ok ed h'" by (simp add: editor_ok_def h')
  moreover have "keeps h h'" by (simp add: keeps_def h')
  ultimately show ?thesis by (simp add: h' m)
qed

lemma getModel_ref_simulates:
  assumes "getModel_ref ed h = (m, h')"
  shows "model_of h' m = getModel (editor_of h ed)"
proof -
  from assms have h': "paramValueObjs h' = paramValueObjs h"
    "paramValueArrays h' = paramValueArrays h" "colorArrays h' = colorArrays h"
    "modelObjs h' = modelObjs h @ [\<lparr>paramValues_ref = state_paramValues ed,
        colors_ref = colors_ref (modelObjs h ! props_model ed)\<rparr>]"
    and m: "m = length (modelObjs h)"
    unfolding getModel_ref_eq by auto
  show ?thesis
    by (simp add: model_of_def getModel_def editor_of_def paramValues_of_def h' m)
qed

lemma model_of_testHeap: "model_of testHeap 0 = testModel"
  by (simp add: model_of_def paramValues_of_def testHeap_def testModel_def)

lemma heap_ok_testHeap: "heap_ok testHeap"
  by (simp add: heap_ok_def testHeap_def)

lemma mounted_eq:
  "mounted =
     (\<lparr>props_params = testParameters, props_model = 0, state_paramValues = 1\<rparr>,
      \<lparr>paramValueObjs = [\<lparr>paramId = 1, value = ''povsednevnoe''\<rparr>,
                         \<lparr>paramId = 2, value = ''maksi''\<rparr>],
       paramValueArrays = [[0, 1], [0, 1]],
       colorArrays = [[]],
       modelObjs = [\<lparr>paramValues_ref = 0, colors_ref = 0\<rparr>]\<rparr>)"
  by (simp add: mounted_def constructor_ref_eq testHeap_def)

lemma initialResult_eq:
  "initialResult =
     (1, \<lparr>paramValueObjs = [\<lparr>paramId = 1, value = ''povsednevnoe''\<rparr>,
                            \<lparr>paramId = 2, value = ''maksi''\<rparr>],
          paramValueArrays = [[0, 1], [0, 1]],
          colorArrays = [[]],
          modelObjs = [\<lparr>paramValues_ref = 0, colors_ref = 0\<rparr>,
                       \<lparr>paramValues_ref = 1, colors_ref = 0\<rparr>]\<rparr>)"
  by (simp add: initialResult_def getModel_ref_eq mounted_eq)

lemma handleParamChanges_ref_simulates:
  assumes "heap_ok h" and "editor_ok ed h"
    and "handleParamChanges_ref ups (ed, h) = (ed', h')"
  shows "editor_of h' ed' = handleParamChanges ups (editor_of h ed)"
proof -
  note run = handleParamChanges_ref_run [OF assms]
  from assms(2) have "props_model ed < length (modelObjs h)" by (simp add: editor_ok_def)
  with run assms(1) have "model_of h' (props_model ed) = model_of h (props_model ed)"
    by (simp add: keeps_model_of)
  with run show ?thesis
    unfolding handleParamChanges_foldl by (simp add: editor_of_def)
qed

lemma constructor_ref_simulates:
  assumes "heap_ok h" and "m < length (modelObjs h)"
    and "constructor_ref ps m h = (ed, h')"
  shows "editor_of h' ed = constructor \<lparr>params = ps, model = model_of h m\<rparr>"
proof -
  note c = constructor_ref_ok [OF assms]
  from c have st: "paramValues_of h' (state_paramValues ed) =
      paramValues_of h (paramValues_ref (modelObjs h ! m))"
    and pr: "props_model ed = m" "props_params ed = ps"
    by blast+
  from c assms(1,2) have "model_of h' m = model_of h m" by (simp add: keeps_model_of)
  then show ?thesis
    unfolding editor_of_def constructor_def st pr by (simp add: model_of_def)
qed



lemma find_map_values:
  "find (\<lambda>r. p (f r)) rs = Some r \<Longrightarrow> find p (map f rs) = Some (f r)"
  "find (\<lambda>r. p (f r)) rs = None \<Longrightarrow> find p (map f rs) = None"
  by (induction rs) (auto split: if_splits)

lemma getParamValue_ref_values:
  "getParamValue_ref ed h pid =
     (case find (\<lambda>pv. paramId pv = pid) (paramValues_of h (state_paramValues ed)) of
        Some pv \<Rightarrow> value pv | None \<Rightarrow> [])"
proof (cases "find (\<lambda>r. paramId (paramValueObjs h ! r) = pid)
    (paramValueArrays h ! state_paramValues ed)")
  case None
  then show ?thesis
    using find_map_values(2) [of "\<lambda>pv. paramId pv = pid" "\<lambda>r. paramValueObjs h ! r"]
    by (simp add: getParamValue_ref_def paramValues_of_def)
next
  case (Some r)
  then show ?thesis
    using find_map_values(1) [of "\<lambda>pv. paramId pv = pid" "\<lambda>r. paramValueObjs h ! r"]
    by (simp add: getParamValue_ref_def paramValues_of_def)
qed

lemma getParamValue_ref_simulates:
  "getParamValue_ref ed h pid = getParamValue (editor_of h ed) pid"
  by (simp add: getParamValue_ref_values getParamValue_def editor_of_def)






section \<open>The copy at construction and the exported model\<close>

text \<open>
  C8. The constructor gives the store an array of its own with the contents of the
  array of the model: the store never holds the address of the caller's array, neither
  at construction nor after any sequence of updates. After the updates the caller's
  model object, its array (so its length and its elements) and the identifier and the
  value of every entry are what they were.
\<close>

theorem constructor_copies_updates_keep_caller_model:
  assumes "heap_ok h" and "m < length (modelObjs h)"
    and "constructor_ref ps m h = (ed0, h0)"
    and "handleParamChanges_ref ups (ed0, h0) = (ed, h')"
  shows "paramValues_of h0 (state_paramValues ed0) =
           paramValues_of h (paramValues_ref (modelObjs h ! m)) \<and>
         state_paramValues ed0 \<noteq> paramValues_ref (modelObjs h ! m) \<and>
         state_paramValues ed \<noteq> paramValues_ref (modelObjs h ! m) \<and>
         modelObjs h' ! m = modelObjs h ! m \<and>
         paramValueArrays h' ! paramValues_ref (modelObjs h ! m) =
           paramValueArrays h ! paramValues_ref (modelObjs h ! m) \<and>
         paramValues_of h' (paramValues_ref (modelObjs h ! m)) =
           paramValues_of h (paramValues_ref (modelObjs h ! m)) \<and>
         model_of h' m = model_of h m"
proof -
  let ?a = "paramValues_ref (modelObjs h ! m)"
  note c = constructor_ref_ok [OF assms(1-3)]
  from c have ok0: "heap_ok h0" "editor_ok ed0 h0" by blast+
  note run = handleParamChanges_ref_run [OF ok0 assms(4)]
  from assms(1,2) have a: "?a < length (paramValueArrays h)" by (simp add: heap_ok_model)
  from c have k0: "keeps h h0" and st0: "state_paramValues ed0 = length (paramValueArrays h)"
    and copy: "paramValues_of h0 (state_paramValues ed0) = paramValues_of h ?a"
    by blast+
  from k0 have len: "length (paramValueArrays h) \<le> length (paramValueArrays h0)"
    by (simp add: keeps_def prefix_length_le)
  from run have k1: "keeps h0 h'" by blast
  with k0 have k: "keeps h h'" by (rule keeps_trans)
  from run st0 len have "length (paramValueArrays h) \<le> state_paramValues ed" by auto
  with a have apart: "state_paramValues ed \<noteq> ?a" by simp
  from a st0 have apart0: "state_paramValues ed0 \<noteq> ?a" by simp
  from k assms(2) have obj: "modelObjs h' ! m = modelObjs h ! m" by (rule keeps_model)
  from k a have arr: "paramValueArrays h' ! ?a = paramValueArrays h ! ?a" by (rule keeps_array)
  from k assms(1) a have vals: "paramValues_of h' ?a = paramValues_of h ?a"
    by (rule keeps_paramValues_of)
  from k assms(1,2) have "model_of h' m = model_of h m" by (rule keeps_model_of)
  with copy apart0 apart obj arr vals show ?thesis by blast
qed

theorem constructor_copies_updates_keep_caller_model_witness:
  "heap_ok testHeap \<and> 0 < length (modelObjs testHeap) \<and>
   paramValues_ref (modelObjs testHeap ! 0) = 0 \<and>
   state_paramValues (fst (handleParamChanges_ref [(1, ''vechernee''), (3, ''hlopok'')] mounted)) = 3 \<and>
   paramValues_of (snd (handleParamChanges_ref [(1, ''vechernee''), (3, ''hlopok'')] mounted)) 3 =
     [\<lparr>paramId = 1, value = ''vechernee''\<rparr>, \<lparr>paramId = 2, value = ''maksi''\<rparr>,
      \<lparr>paramId = 3, value = ''hlopok''\<rparr>] \<and>
   paramValues_of (snd (handleParamChanges_ref [(1, ''vechernee''), (3, ''hlopok'')] mounted)) 0 =
     [\<lparr>paramId = 1, value = ''povsednevnoe''\<rparr>, \<lparr>paramId = 2, value = ''maksi''\<rparr>] \<and>
   model_of (snd (handleParamChanges_ref [(1, ''vechernee''), (3, ''hlopok'')] mounted)) 0 =
     testModel"
proof -
  let ?c = "handleParamChanges_ref [(1, ''vechernee''), (3, ''hlopok'')] mounted"
  have valid: "0 < length (modelObjs testHeap)" by (simp add: testHeap_def)
  have a: "paramValues_ref (modelObjs testHeap ! 0) = 0" by (simp add: testHeap_def)
  have init: "constructor_ref testParameters 0 testHeap = (fst mounted, snd mounted)"
    by (simp add: mounted_def)
  have run: "handleParamChanges_ref [(1, ''vechernee''), (3, ''hlopok'')] (fst mounted, snd mounted) =
      (fst ?c, snd ?c)"
    by simp
  have final: "state_paramValues (fst ?c) = 3 \<and> paramValues_of (snd ?c) 3 =
     [\<lparr>paramId = 1, value = ''vechernee''\<rparr>, \<lparr>paramId = 2, value = ''maksi''\<rparr>,
      \<lparr>paramId = 3, value = ''hlopok''\<rparr>]"
    by (simp add: mounted_eq handleParamChanges_ref_Cons handleParamChanges_ref_Nil
        handleParamChange_ref_eq findIndex_def paramValues_of_def)
  from constructor_copies_updates_keep_caller_model [OF heap_ok_testHeap valid init run]
    heap_ok_testHeap valid a final
  show ?thesis
    by (simp add: model_of_testHeap) (simp add: paramValues_of_def testHeap_def)
qed

text \<open>
  C5. The model exported after construction and any sequence of updates names the very
  array of colours that the model given at construction names, no array of colours in
  the heap has changed, and so the colours of the export are those of that model. The
  export is the model that the operations on values compute, whose colours are those
  of the props.
\<close>

theorem colors_pass_through:
  assumes "heap_ok h" and "m < length (modelObjs h)"
    and "constructor_ref ps m h = (ed0, h0)"
    and "handleParamChanges_ref ups (ed0, h0) = (ed, h1)"
    and "getModel_ref ed h1 = (m', h2)"
  shows "colors_ref (modelObjs h2 ! m') = colors_ref (modelObjs h ! m) \<and>
         colorArrays h2 = colorArrays h \<and>
         colors (model_of h2 m') = colors (model_of h m) \<and>
         model_of h2 m' =
           getModel (handleParamChanges ups (constructor \<lparr>params = ps, model = model_of h m\<rparr>)) \<and>
         colors (getModel (handleParamChanges ups (constructor p))) = colors (model p)"
proof -
  note c = constructor_ref_ok [OF assms(1-3)]
  from c have ok0: "heap_ok h0" "editor_ok ed0 h0" by blast+
  note run = handleParamChanges_ref_run [OF ok0 assms(4)]
  from run have ok1: "heap_ok h1" "editor_ok ed h1" by blast+
  note g = getModel_ref_ok [OF ok1 assms(5)]
  from c run have model: "props_model ed = m" and objs: "modelObjs h1 = modelObjs h"
    by auto
  from g have "modelObjs h2 ! m' =
      \<lparr>paramValues_ref = state_paramValues ed,
       colors_ref = colors_ref (modelObjs h1 ! props_model ed)\<rparr>"
    by blast
  then have ref: "colors_ref (modelObjs h2 ! m') = colors_ref (modelObjs h ! m)"
    by (simp add: model objs)
  from c run g have arrays: "colorArrays h2 = colorArrays h" by (simp add: keeps_def)
  from ref arrays have cols: "colors (model_of h2 m') = colors (model_of h m)"
    by (simp add: model_of_def)
  have "model_of h2 m' = getModel (editor_of h1 ed)"
    using assms(5) by (rule getModel_ref_simulates)
  also have "editor_of h1 ed = handleParamChanges ups (editor_of h0 ed0)"
    using ok0 assms(4) by (rule handleParamChanges_ref_simulates)
  also have "editor_of h0 ed0 = constructor \<lparr>params = ps, model = model_of h m\<rparr>"
    using assms(1-3) by (rule constructor_ref_simulates)
  finally have sim: "model_of h2 m' =
      getModel (handleParamChanges ups (constructor \<lparr>params = ps, model = model_of h m\<rparr>))" .
  have "colors (getModel (handleParamChanges ups (constructor p))) = colors (model p)"
    by (simp add: getModel_def props_handleParamChanges constructor_def)
  with ref arrays cols sim show ?thesis by blast
qed

theorem colors_pass_through_witness:
  "heap_ok paletteHeap \<and> 0 < length (modelObjs paletteHeap) \<and>
   colors_ref (modelObjs paletteHeap ! 0) = 1 \<and>
   colors (model_of paletteHeap 0) =
     [\<lparr>id_c = 1, name_c = ''krasnyj''\<rparr>, \<lparr>id_c = 2, name_c = ''sinij''\<rparr>] \<and>
   colors_ref (modelObjs
       (snd (getModel_ref
               (fst (handleParamChanges_ref [(3, ''hlopok'')]
                       (constructor_ref testParameters 0 paletteHeap)))
               (snd (handleParamChanges_ref [(3, ''hlopok'')]
                       (constructor_ref testParameters 0 paletteHeap))))) !
       fst (getModel_ref
               (fst (handleParamChanges_ref [(3, ''hlopok'')]
                       (constructor_ref testParameters 0 paletteHeap)))
               (snd (handleParamChanges_ref [(3, ''hlopok'')]
                       (constructor_ref testParameters 0 paletteHeap))))) = 1 \<and>
   colorArrays
       (snd (getModel_ref
               (fst (handleParamChanges_ref [(3, ''hlopok'')]
                       (constructor_ref testParameters 0 paletteHeap)))
               (snd (handleParamChanges_ref [(3, ''hlopok'')]
                       (constructor_ref testParameters 0 paletteHeap))))) =
     [[\<lparr>id_c = 7, name_c = ''belyj''\<rparr>],
      [\<lparr>id_c = 1, name_c = ''krasnyj''\<rparr>, \<lparr>id_c = 2, name_c = ''sinij''\<rparr>]] \<and>
   model_of
       (snd (getModel_ref
               (fst (handleParamChanges_ref [(3, ''hlopok'')]
                       (constructor_ref testParameters 0 paletteHeap)))
               (snd (handleParamChanges_ref [(3, ''hlopok'')]
                       (constructor_ref testParameters 0 paletteHeap)))))
       (fst (getModel_ref
               (fst (handleParamChanges_ref [(3, ''hlopok'')]
                       (constructor_ref testParameters 0 paletteHeap)))
               (snd (handleParamChanges_ref [(3, ''hlopok'')]
                       (constructor_ref testParameters 0 paletteHeap))))) =
     \<lparr>Model.paramValues =
        [\<lparr>paramId = 1, value = ''povsednevnoe''\<rparr>, \<lparr>paramId = 2, value = ''maksi''\<rparr>,
         \<lparr>paramId = 3, value = ''hlopok''\<rparr>],
      colors = [\<lparr>id_c = 1, name_c = ''krasnyj''\<rparr>, \<lparr>id_c = 2, name_c = ''sinij''\<rparr>]\<rparr>"
proof -
  let ?m = "constructor_ref testParameters 0 paletteHeap"
  let ?c = "handleParamChanges_ref [(3, ''hlopok'')] ?m"
  let ?g = "getModel_ref (fst ?c) (snd ?c)"
  have ok: "heap_ok paletteHeap" by (simp add: heap_ok_def paletteHeap_def)
  have valid: "0 < length (modelObjs paletteHeap)" by (simp add: paletteHeap_def)
  have init: "constructor_ref testParameters 0 paletteHeap = (fst ?m, snd ?m)" by simp
  have run: "handleParamChanges_ref [(3, ''hlopok'')] (fst ?m, snd ?m) = (fst ?c, snd ?c)"
    by simp
  have export: "getModel_ref (fst ?c) (snd ?c) = (fst ?g, snd ?g)" by simp
  have model: "model_of paletteHeap 0 = \<lparr>Model.paramValues =
        [\<lparr>paramId = 1, value = ''povsednevnoe''\<rparr>, \<lparr>paramId = 2, value = ''maksi''\<rparr>],
      colors = [\<lparr>id_c = 1, name_c = ''krasnyj''\<rparr>, \<lparr>id_c = 2, name_c = ''sinij''\<rparr>]\<rparr>"
    by (simp add: model_of_def paramValues_of_def paletteHeap_def)
  have ref: "colors_ref (modelObjs paletteHeap ! 0) = 1" by (simp add: paletteHeap_def)
  have arrays: "colorArrays paletteHeap =
      [[\<lparr>id_c = 7, name_c = ''belyj''\<rparr>],
       [\<lparr>id_c = 1, name_c = ''krasnyj''\<rparr>, \<lparr>id_c = 2, name_c = ''sinij''\<rparr>]]"
    by (simp add: paletteHeap_def)
  from colors_pass_through [OF ok valid init run export]
  have "colors_ref (modelObjs (snd ?g) ! fst ?g) = colors_ref (modelObjs paletteHeap ! 0)"
    and "colorArrays (snd ?g) = colorArrays paletteHeap"
    and "model_of (snd ?g) (fst ?g) =
      getModel (handleParamChanges [(3, ''hlopok'')]
        (constructor \<lparr>params = testParameters, model = model_of paletteHeap 0\<rparr>))"
    by blast+
  then have "colors_ref (modelObjs (snd ?g) ! fst ?g) = 1"
    and "colorArrays (snd ?g) =
      [[\<lparr>id_c = 7, name_c = ''belyj''\<rparr>],
       [\<lparr>id_c = 1, name_c = ''krasnyj''\<rparr>, \<lparr>id_c = 2, name_c = ''sinij''\<rparr>]]"
    and "model_of (snd ?g) (fst ?g) = \<lparr>Model.paramValues =
        [\<lparr>paramId = 1, value = ''povsednevnoe''\<rparr>, \<lparr>paramId = 2, value = ''maksi''\<rparr>,
         \<lparr>paramId = 3, value = ''hlopok''\<rparr>],
      colors = [\<lparr>id_c = 1, name_c = ''krasnyj''\<rparr>, \<lparr>id_c = 2, name_c = ''sinij''\<rparr>]\<rparr>"
    by (simp_all add: ref arrays model getModel_def handleParamChanges_Cons handleParamChanges_Nil
        state_handleParamChange props_handleParamChange constructor_def updated_Cons updated_Nil)
  with ok valid ref model show ?thesis by simp
qed

text \<open>
  C6. Two exports with no update between them are two distinct objects with equal
  properties, and they stand for equal models: the parameter values and the colours
  of the one are those of the other.
\<close>

theorem export_twice_equal:
  assumes "heap_ok h" and "editor_ok ed h"
    and "getModel_ref ed h = (m1, h1)"
    and "getModel_ref ed h1 = (m2, h2)"
  shows "model_of h2 m2 = model_of h1 m1 \<and>
         model_of h2 m2 = model_of h2 m1 \<and>
         modelObjs h2 ! m2 = modelObjs h2 ! m1 \<and>
         m2 \<noteq> m1 \<and>
         model_of h1 m1 = getModel (editor_of h ed)"
proof -
  note g1 = getModel_ref_ok [OF assms(1-3)]
  from g1 have ok1: "heap_ok h1" "editor_ok ed h1" by blast+
  note g2 = getModel_ref_ok [OF ok1 assms(4)]
  from g1 have m1: "m1 = length (modelObjs h)" and k1: "keeps h h1"
    and o1: "modelObjs h1 ! m1 = \<lparr>paramValues_ref = state_paramValues ed,
      colors_ref = colors_ref (modelObjs h ! props_model ed)\<rparr>"
    by blast+
  from g2 have m2: "m2 = length (modelObjs h1)" and k2: "keeps h1 h2"
    and o2: "modelObjs h2 ! m2 = \<lparr>paramValues_ref = state_paramValues ed,
      colors_ref = colors_ref (modelObjs h1 ! props_model ed)\<rparr>"
    by blast+
  from assms(3) have len: "length (modelObjs h1) = Suc (length (modelObjs h))"
    unfolding getModel_ref_eq by auto
  with m1 m2 have fresh: "m2 \<noteq> m1" and in1: "m1 < length (modelObjs h1)" by simp_all
  from assms(2) have "props_model ed < length (modelObjs h)" by (simp add: editor_ok_def)
  with k1 have "modelObjs h1 ! props_model ed = modelObjs h ! props_model ed"
    by (rule keeps_model)
  with o1 o2 have same1: "modelObjs h2 ! m2 = modelObjs h1 ! m1" by simp
  from k2 in1 have keep: "modelObjs h2 ! m1 = modelObjs h1 ! m1" by (rule keeps_model)
  with same1 have objs: "modelObjs h2 ! m2 = modelObjs h2 ! m1" by simp
  then have eq2: "model_of h2 m2 = model_of h2 m1" by (simp add: model_of_def)
  from k2 ok1(1) in1 have "model_of h2 m1 = model_of h1 m1" by (rule keeps_model_of)
  with eq2 have eq1: "model_of h2 m2 = model_of h1 m1" by simp
  have "model_of h1 m1 = getModel (editor_of h ed)"
    using assms(3) by (rule getModel_ref_simulates)
  with eq1 eq2 objs fresh show ?thesis by blast
qed

theorem export_twice_equal_witness:
  "heap_ok (snd mounted) \<and> editor_ok (fst mounted) (snd mounted) \<and>
   fst initialResult = 1 \<and>
   fst (getModel_ref (fst mounted) (snd initialResult)) = 2 \<and>
   model_of (snd initialResult) (fst initialResult) = testModel \<and>
   model_of (snd (getModel_ref (fst mounted) (snd initialResult)))
     (fst (getModel_ref (fst mounted) (snd initialResult))) = testModel"
proof -
  let ?g = "getModel_ref (fst mounted) (snd initialResult)"
  have ok: "heap_ok (snd mounted)" "editor_ok (fst mounted) (snd mounted)"
    by (simp_all add: mounted_eq heap_ok_def editor_ok_def)
  have first: "getModel_ref (fst mounted) (snd mounted) = (fst initialResult, snd initialResult)"
    by (simp add: initialResult_def)
  have second: "getModel_ref (fst mounted) (snd initialResult) = (fst ?g, snd ?g)" by simp
  have one: "model_of (snd initialResult) (fst initialResult) = testModel"
    by (simp add: initialResult_eq model_of_def paramValues_of_def testModel_def)
  have addr: "fst initialResult = 1" "fst ?g = 2"
    by (simp_all add: initialResult_eq getModel_ref_eq)
  from export_twice_equal [OF ok first second] ok one addr show ?thesis by simp
qed




end
